theory Spec2Isabelle
  imports Main "HOL-Library.Word"
begin

section \<open>Failures of the C++ code as values\<close>

text \<open>
  The predictor of \<^verbatim>\<open>src/cpu/pred/snn.cc\<close> indexes vectors and bit sets, divides, asserts
  and dereferences the history pointer handed back by the pipeline. Each of these can go
  wrong in C++; the embedding returns the failure as a value.
  \<^item> \<open>OutOfRange\<close>: \<^verbatim>\<open>operator[]\<close>, \<^verbatim>\<open>front()\<close> or \<^verbatim>\<open>back()\<close> outside a
    \<^verbatim>\<open>std::vector\<close> (undefined behaviour), \<^verbatim>\<open>operator[]\<close> outside a
    \<^verbatim>\<open>boost::dynamic_bitset\<close> (its assertion), or \<^verbatim>\<open>at()\<close> outside (its exception);
  \<^item> \<open>DivisionByZero\<close>: \<^verbatim>\<open>/\<close> or \<^verbatim>\<open>%\<close> by zero;
  \<^item> \<open>AssertionFailed\<close>: \<^verbatim>\<open>assert(entry.valid)\<close>;
  \<^item> \<open>DanglingHistory\<close>: a \<^verbatim>\<open>bp_history\<close> pointer that is not a live \<^verbatim>\<open>BPHistory\<close>.
\<close>

datatype error = OutOfRange | DivisionByZero | AssertionFailed | DanglingHistory

definition ebind :: "error + 'a \<Rightarrow> ('a \<Rightarrow> error + 'b) \<Rightarrow> error + 'b" where
  "ebind m f = (case m of Inl e \<Rightarrow> Inl e | Inr x \<Rightarrow> f x)"

text \<open>\<^verbatim>\<open>v[i]\<close> on a \<^verbatim>\<open>std::vector\<close> or a \<^verbatim>\<open>dynamic_bitset\<close>, read and write.\<close>

definition at :: "'a list \<Rightarrow> nat \<Rightarrow> error + 'a" where
  "at v i = (if i < length v then Inr (v ! i) else Inl OutOfRange)"

definition put :: "'a list \<Rightarrow> nat \<Rightarrow> 'a \<Rightarrow> error + 'a list" where
  "put v i x = (if i < length v then Inr (v[i := x]) else Inl OutOfRange)"

text \<open>
  \<^verbatim>\<open>bitset << 1\<close> on a \<^verbatim>\<open>dynamic_bitset\<close>: the size stays, every bit moves one position
  up, the highest bit is lost and bit 0 becomes 0. Bit \<open>i\<close> of the bit set is element
  \<open>i\<close> of the list.
\<close>

definition shl1 :: "bool list \<Rightarrow> bool list" where
  "shl1 b = take (length b) (False # b)"

text \<open>\<^verbatim>\<open>Neuron::b2s\<close>: \<^verbatim>\<open>(taken << 1) - 1\<close>.\<close>

definition b2s :: "bool \<Rightarrow> int" where
  "b2s taken = (if taken then 1 else 0) * 2 - 1"

section \<open>The saturating counter\<close>

text \<open>
  Modelled from the spec: the class \<^verbatim>\<open>SignedSatCounter\<close> is declared outside
  \<^verbatim>\<open>snn.cc\<close>. The spec gives it a width \<open>bits\<close> and a signed value kept in
  \<open>[-2^(bits-1), 2^(bits-1)-1]\<close>; \<open>increment\<close>, \<open>decrement\<close> and \<open>add\<close> clamp into that
  range, \<open>read\<close> returns the value, and a reset counter reads zero.
\<close>

record SignedSatCounter =
  bits :: nat
  counter :: int

definition minVal :: "nat \<Rightarrow> int" where
  "minVal b = - (2 ^ (b - 1))"

definition maxVal :: "nat \<Rightarrow> int" where
  "maxVal b = 2 ^ (b - 1) - 1"

definition saturate :: "nat \<Rightarrow> int \<Rightarrow> int" where
  "saturate b v = (if maxVal b < v then maxVal b else if v < minVal b then minVal b else v)"

definition newCounter :: "nat \<Rightarrow> int \<Rightarrow> SignedSatCounter" where
  "newCounter b v = \<lparr>bits = b, counter = v\<rparr>"

definition read :: "SignedSatCounter \<Rightarrow> int" where
  "read c = counter c"

definition add :: "SignedSatCounter \<Rightarrow> int \<Rightarrow> SignedSatCounter" where
  "add c delta = c\<lparr>counter := saturate (bits c) (counter c + delta)\<rparr>"

definition increment :: "SignedSatCounter \<Rightarrow> SignedSatCounter" where
  "increment c = c\<lparr>counter := saturate (bits c) (counter c + 1)\<rparr>"

definition decrement :: "SignedSatCounter \<Rightarrow> SignedSatCounter" where
  "decrement c = c\<lparr>counter := saturate (bits c) (counter c - 1)\<rparr>"

definition reset :: "SignedSatCounter \<Rightarrow> SignedSatCounter" where
  "reset c = c\<lparr>counter := 0\<rparr>"

datatype counter_op = Increment | Decrement | Add int

fun apply_counter_op :: "SignedSatCounter \<Rightarrow> counter_op \<Rightarrow> SignedSatCounter" where
  "apply_counter_op c Increment = increment c"
| "apply_counter_op c Decrement = decrement c"
| "apply_counter_op c (Add delta) = add c delta"

definition in_range :: "SignedSatCounter \<Rightarrow> bool" where
  "in_range c \<longleftrightarrow> minVal (bits c) \<le> counter c \<and> counter c \<le> maxVal (bits c)"

section \<open>Parameters, history snapshot, neuron\<close>

text \<open>
  \<^verbatim>\<open>SNNParams\<close>, the named numeric parameters the predictor is constructed from. The
  fields carry the prefix \<open>p_\<close> since the neuron and the predictor keep members of the
  same names.
\<close>

record SNNParams =
  p_tableSize :: nat
  p_denseGlobalHistoryLen :: nat
  p_sparseGHSegLen :: nat
  p_sparseGHNSegs :: nat
  p_localHistoryLen :: nat
  p_ctrBits :: nat
  p_activeTerm :: nat
  p_numThreads :: nat

text \<open>
  The constants and default member values that \<^verbatim>\<open>snn.cc\<close> uses and \<^verbatim>\<open>snn.hh\<close>
  declares: the two sentinels of a history without table entry, the first prediction
  identifier, and the value of \<^verbatim>\<open>Neuron::valid\<close>, which the constructor in
  \<^verbatim>\<open>snn.cc\<close> does not set. They are parameters of the model.
\<close>

record SNNHeader =
  InvalidTableIndex :: nat
  InvalidPredictionID :: nat
  firstPredictionID :: nat
  neuronValid :: bool

text \<open>
  \<^verbatim>\<open>BPHistory\<close>, in the order of its constructor's arguments. The two snapshots and the
  identifier carry the prefix \<open>bp\<close>: the predictor and the neuron have members of the
  same names.
\<close>

record BPHistory =
  bpGlobalHistory :: "bool list"
  bpLocalHistory :: "bool list"
  tableIndex :: nat
  predTaken :: bool
  bpPredictionID :: nat
  predictionValue :: int

text \<open>An element of \<^verbatim>\<open>sparseSegs\<close>, initialised as \<^verbatim>\<open>{false, 0, counter}\<close>.\<close>

record SparseSeg =
  valid :: bool
  ptr :: nat
  weight :: SignedSatCounter

text \<open>
  \<^verbatim>\<open>SNN::Neuron\<close>. \<open>nvalid\<close> is the member \<^verbatim>\<open>valid\<close> that \<^verbatim>\<open>SNN::update\<close> asserts.
  The member \<^verbatim>\<open>probing\<close> only switches diagnostic output and is left out, as are
  \<^verbatim>\<open>dump\<close>, \<^verbatim>\<open>tryDump\<close> and \<^verbatim>\<open>dumpParameters\<close>. Lengths, positions and times are
  natural numbers, \<open>theta\<close> and the score are integers: the model covers the runs in
  which the sums and counts of the code stay within their 32 bits. The one operation on
  the score whose 32-bit result differs inside that range, \<^verbatim>\<open>abs\<close>, is modelled as
  \<open>abs32\<close>.
\<close>

record Neuron =
  denseGHLen :: nat
  sparseGHSegLen :: nat
  sparseGHNSegs :: nat
  localHistory :: "bool list"
  denseWeights :: "SignedSatCounter list"
  activeStart :: nat
  activeWeights :: "SignedSatCounter list"
  activeTerm :: nat
  activeTime :: nat
  sparseSegs :: "SparseSeg list"
  theta :: int
  nvalid :: bool

text \<open>
  \<^verbatim>\<open>Neuron::Neuron\<close>. \<^verbatim>\<open>static_cast<int32_t>(1.93 * (denseGHLen+sparseGHSegLen) + 14.0)\<close>
  truncates a positive floating-point number. The model takes the integer part of the
  exact value \<open>(193 * (d + s) + 1400) / 100\<close>; the two agree unless the exact value is
  an integer, which needs \<open>d + s\<close> to be a multiple of 100. No statement below depends
  on the initial value of \<open>theta\<close> beyond the configurations it is evaluated for.
\<close>

definition initTheta :: "nat \<Rightarrow> nat \<Rightarrow> int" where
  "initTheta d s = (193 * (int d + int s) + 1400) div 100"

definition newNeuron :: "SNNHeader \<Rightarrow> SNNParams \<Rightarrow> Neuron" where
  "newNeuron hh params =
     \<lparr>denseGHLen = p_denseGlobalHistoryLen params,
      sparseGHSegLen = p_sparseGHSegLen params,
      sparseGHNSegs = p_sparseGHNSegs params,
      localHistory = replicate (p_localHistoryLen params) False,
      denseWeights =
        replicate (p_denseGlobalHistoryLen params + 1) (newCounter (p_ctrBits params) 0),
      activeStart = p_denseGlobalHistoryLen params,
      activeWeights = replicate (p_sparseGHSegLen params) (newCounter (p_ctrBits params) 0),
      activeTerm = p_activeTerm params,
      activeTime = 0,
      sparseSegs =
        replicate (p_sparseGHNSegs params)
          \<lparr>valid = False, ptr = 0, weight = newCounter (p_ctrBits params) 0\<rparr>,
      theta = initTheta (p_denseGlobalHistoryLen params) (p_sparseGHSegLen params),
      nvalid = neuronValid hh\<rparr>"

section \<open>\<^verbatim>\<open>Neuron::predict\<close>\<close>

text \<open>The three loops of \<^verbatim>\<open>predict\<close>, each over its index range, adding to the running sum.\<close>

fun predict_dense :: "nat list \<Rightarrow> bool list \<Rightarrow> SignedSatCounter list \<Rightarrow> int \<Rightarrow> error + int" where
  "predict_dense [] ghr ws acc = Inr acc"
| "predict_dense (i # is) ghr ws acc =
     ebind (at ghr i) (\<lambda>b.
     ebind (at ws i) (\<lambda>w.
       predict_dense is ghr ws (acc + b2s b * read w)))"

fun predict_active ::
  "nat list \<Rightarrow> bool list \<Rightarrow> nat \<Rightarrow> SignedSatCounter list \<Rightarrow> int \<Rightarrow> error + int" where
  "predict_active [] ghr start ws acc = Inr acc"
| "predict_active (i # is) ghr start ws acc =
     ebind (at ghr (start + i)) (\<lambda>b.
     ebind (at ws i) (\<lambda>w.
       predict_active is ghr start ws (acc + b2s b * read w)))"

fun predict_sparse :: "nat list \<Rightarrow> bool list \<Rightarrow> SparseSeg list \<Rightarrow> int \<Rightarrow> error + int" where
  "predict_sparse [] ghr segs acc = Inr acc"
| "predict_sparse (i # is) ghr segs acc =
     ebind (at segs i) (\<lambda>s.
     ebind (at ghr (ptr s)) (\<lambda>b.
       predict_sparse is ghr segs (acc + b2s b * read (weight s))))"

definition predict :: "Neuron \<Rightarrow> bool list \<Rightarrow> error + int" where
  "predict n ghr =
     (if denseWeights n = [] then Inl OutOfRange
      else
        ebind (predict_dense [0..<denseGHLen n] ghr (denseWeights n)
                 (read (last (denseWeights n)))) (\<lambda>acc1.
        ebind (predict_active [0..<sparseGHSegLen n] ghr (activeStart n) (activeWeights n)
                 acc1) (\<lambda>acc2.
          predict_sparse [0..<sparseGHNSegs n] ghr (sparseSegs n) acc2)))"

section \<open>\<^verbatim>\<open>Neuron::fit\<close>\<close>

fun fit_dense ::
  "nat list \<Rightarrow> bool \<Rightarrow> bool list \<Rightarrow> SignedSatCounter list \<Rightarrow> error + SignedSatCounter list" where
  "fit_dense [] taken ghr ws = Inr ws"
| "fit_dense (i # is) taken ghr ws =
     ebind (at ghr i) (\<lambda>b.
     ebind (at ws i) (\<lambda>w.
       fit_dense is taken ghr (ws[i := add w (b2s taken * b2s b)])))"

fun fit_sparse ::
  "nat list \<Rightarrow> bool \<Rightarrow> bool list \<Rightarrow> SparseSeg list \<Rightarrow> error + SparseSeg list" where
  "fit_sparse [] taken ghr segs = Inr segs"
| "fit_sparse (i # is) taken ghr segs =
     ebind (at segs i) (\<lambda>s.
     ebind (at ghr (ptr s)) (\<lambda>b.
       fit_sparse is taken ghr
         (segs[i := s\<lparr>weight :=
            add (weight s) (b2s taken * b2s b * (if valid s then 1 else 0))\<rparr>])))"

fun fit_active ::
  "nat list \<Rightarrow> bool \<Rightarrow> bool list \<Rightarrow> nat \<Rightarrow> SignedSatCounter list
     \<Rightarrow> error + SignedSatCounter list" where
  "fit_active [] taken ghr start ws = Inr ws"
| "fit_active (i # is) taken ghr start ws =
     ebind (at ghr (start + i)) (\<lambda>b.
     ebind (at ws i) (\<lambda>w.
       fit_active is taken ghr start (ws[i := add w (b2s taken * b2s b)])))"

text \<open>
  The search for the active weight of largest magnitude: \<open>max_index\<close> and \<open>max\<close> change
  only on a strictly larger magnitude.
\<close>

fun find_max :: "nat list \<Rightarrow> SignedSatCounter list \<Rightarrow> nat \<Rightarrow> int \<Rightarrow> error + nat" where
  "find_max [] ws max_index mx = Inr max_index"
| "find_max (i # is) ws max_index mx =
     ebind (at ws i) (\<lambda>c.
       if \<bar>read c\<bar> > mx then find_max is ws i \<bar>read c\<bar>
       else find_max is ws max_index mx)"

text \<open>The window following \<open>activeStart\<close>, or the first one after the last.\<close>

definition next_activeStart :: "Neuron \<Rightarrow> nat" where
  "next_activeStart n =
     (if activeStart n div sparseGHSegLen n \<noteq> sparseGHNSegs n - 1
      then activeStart n + sparseGHSegLen n
      else denseGHLen n)"

text \<open>
  The body of \<^verbatim>\<open>if (activeTime >= activeTerm)\<close>. \<open>sparseGHNSegs n - 1\<close> is evaluated
  only after \<^verbatim>\<open>sparseSegs[activeStart / sparseGHSegLen]\<close> was in range, so
  \<open>sparseGHNSegs n\<close> is positive there.
\<close>

definition reselect :: "Neuron \<Rightarrow> error + Neuron" where
  "reselect n =
     (if sparseGHSegLen n = 0 then Inl DivisionByZero
      else
        ebind (at (sparseSegs n) (activeStart n div sparseGHSegLen n)) (\<lambda>seg_to_update.
        ebind (at (activeWeights n) 0) (\<lambda>front.
        ebind (find_max [0..<sparseGHSegLen n] (activeWeights n) 0 \<bar>read front\<bar>) (\<lambda>max_index.
        ebind (at (activeWeights n) max_index) (\<lambda>best.
          Inr (n\<lparr>activeTime := 0,
                 sparseSegs := (sparseSegs n)[activeStart n div sparseGHSegLen n :=
                   (if \<not> valid seg_to_update
                    then seg_to_update\<lparr>valid := True,
                           weight := add (weight seg_to_update) (read best),
                           ptr := max_index\<rparr>
                    else if ptr seg_to_update = max_index then seg_to_update
                    else seg_to_update\<lparr>ptr := max_index,
                           weight := add (reset (weight seg_to_update)) (read best)\<rparr>)],
                 theta := (if \<not> valid seg_to_update then theta n + 2 else theta n),
                 activeStart := next_activeStart n,
                 activeWeights := map reset (activeWeights n)\<rparr>))))))"

text \<open>
  \<^verbatim>\<open>abs\<close> on the 32-bit score \<^verbatim>\<open>predictionValue\<close>. The negation of \<open>-2^31\<close> is not a
  32-bit value; the result wraps to \<open>-2^31\<close> itself and stays negative. For every other
  score it is the magnitude.
\<close>

definition abs32 :: "int \<Rightarrow> int" where
  "abs32 v = (if v < 0 then (if v = - (2 ^ 31) then - (2 ^ 31) else - v) else v)"

definition fit :: "Neuron \<Rightarrow> BPHistory \<Rightarrow> bool \<Rightarrow> error + Neuron" where
  "fit n bp_history taken =
     (if taken = predTaken bp_history \<and> abs32 (predictionValue bp_history) > theta n
      then Inr n
      else if denseWeights n = [] then Inl OutOfRange
      else
        ebind (fit_dense [0..<denseGHLen n] taken (bpGlobalHistory bp_history)
                 ((denseWeights n)[length (denseWeights n) - 1 :=
                    (if taken then increment (last (denseWeights n))
                     else decrement (last (denseWeights n)))])) (\<lambda>dense.
        ebind (fit_sparse [0..<sparseGHNSegs n] taken (bpGlobalHistory bp_history)
                 (sparseSegs n)) (\<lambda>segs.
        ebind (fit_active [0..<sparseGHSegLen n] taken (bpGlobalHistory bp_history)
                 (activeStart n) (activeWeights n)) (\<lambda>active.
          if activeTime n + 1 \<ge> activeTerm n
          then reselect (n\<lparr>denseWeights := dense, sparseSegs := segs,
                           activeWeights := active, activeTime := activeTime n + 1\<rparr>)
          else Inr (n\<lparr>denseWeights := dense, sparseSegs := segs,
                      activeWeights := active, activeTime := activeTime n + 1\<rparr>)))))"

section \<open>The predictor\<close>

text \<open>
  \<^verbatim>\<open>SNN\<close>. A \<^verbatim>\<open>BPHistory\<close> lives on the heap from the \<^verbatim>\<open>new\<close> that creates it to the
  \<^verbatim>\<open>delete\<close> that frees it; the pipeline holds its address. \<open>histories\<close> is that part of
  the heap, a map from addresses to the live objects, and \<open>nextHistory\<close> the address the
  next \<^verbatim>\<open>new\<close> returns.
\<close>

record SNN =
  globalHistoryLen :: nat
  tableSize :: nat
  emptyLocalHistory :: "bool list"
  globalHistory :: "bool list list"
  table :: "Neuron list"
  predictionID :: nat
  histories :: "nat \<Rightarrow> BPHistory option"
  nextHistory :: nat

definition newSNN :: "SNNHeader \<Rightarrow> SNNParams \<Rightarrow> SNN" where
  "newSNN hh params =
     \<lparr>globalHistoryLen =
        p_denseGlobalHistoryLen params + p_sparseGHNSegs params * p_sparseGHSegLen params,
      tableSize = p_tableSize params,
      emptyLocalHistory = replicate 1 False,
      globalHistory =
        replicate (p_numThreads params)
          (replicate (p_denseGlobalHistoryLen params
             + p_sparseGHNSegs params * p_sparseGHSegLen params) False),
      table = replicate (p_tableSize params) (newNeuron hh params),
      predictionID = firstPredictionID hh,
      histories = (\<lambda>_. None),
      nextHistory = 0\<rparr>"

text \<open>
  \<^verbatim>\<open>static_cast<uint32_t>((addr >> 2) % tableSize)\<close> on a 64-bit address.
\<close>

definition computeIndex :: "SNN \<Rightarrow> 64 word \<Rightarrow> error + nat" where
  "computeIndex s addr =
     (if tableSize s = 0 then Inl DivisionByZero
      else Inr ((unat (drop_bit 2 addr) mod tableSize s) mod 2 ^ 32))"

definition updateGHR :: "SNN \<Rightarrow> nat \<Rightarrow> bool \<Rightarrow> error + SNN" where
  "updateGHR s tid taken =
     ebind (at (globalHistory s) tid) (\<lambda>g.
     ebind (put (shl1 g) 0 taken) (\<lambda>g'.
       Inr (s\<lparr>globalHistory := (globalHistory s)[tid := g']\<rparr>)))"

definition uncondBranch :: "SNNHeader \<Rightarrow> SNN \<Rightarrow> nat \<Rightarrow> 64 word \<Rightarrow> error + nat \<times> SNN" where
  "uncondBranch hh s tid pc =
     ebind (at (globalHistory s) tid) (\<lambda>g.
     ebind (at (table s) 0) (\<lambda>front.
     ebind (updateGHR
              (s\<lparr>histories := (histories s)(nextHistory s \<mapsto>
                    \<lparr>bpGlobalHistory = g, bpLocalHistory = emptyLocalHistory s,
                     tableIndex = InvalidTableIndex hh, predTaken = True,
                     bpPredictionID = InvalidPredictionID hh,
                     predictionValue = theta front + 1\<rparr>),
                 nextHistory := nextHistory s + 1\<rparr>) tid True) (\<lambda>s'.
       Inr (nextHistory s, s'))))"

definition btbUpdate :: "SNN \<Rightarrow> nat \<Rightarrow> 64 word \<Rightarrow> error + SNN" where
  "btbUpdate s tid branch_addr =
     ebind (at (globalHistory s) tid) (\<lambda>g.
     ebind (put g 0 False) (\<lambda>g'.
     ebind (computeIndex s branch_addr) (\<lambda>index.
     ebind (at (table s) index) (\<lambda>entry.
     ebind (put (localHistory entry) 0 False) (\<lambda>l.
       Inr (s\<lparr>globalHistory := (globalHistory s)[tid := g'],
              table := (table s)[index := entry\<lparr>localHistory := l\<rparr>]\<rparr>))))))"

definition squash :: "SNNHeader \<Rightarrow> SNN \<Rightarrow> nat \<Rightarrow> nat \<Rightarrow> error + SNN" where
  "squash hh s tid bp_history =
     (case histories s bp_history of
        None \<Rightarrow> Inl DanglingHistory
      | Some history \<Rightarrow>
          ebind (put (globalHistory s) tid (bpGlobalHistory history)) (\<lambda>gh.
            if tableIndex history \<noteq> InvalidTableIndex hh
            then
              ebind (at (table s) (tableIndex history)) (\<lambda>entry.
                Inr (s\<lparr>globalHistory := gh,
                       table := (table s)[tableIndex history :=
                                  entry\<lparr>localHistory := bpLocalHistory history\<rparr>],
                       histories := (histories s)(bp_history := None)\<rparr>))
            else
              Inr (s\<lparr>globalHistory := gh,
                     histories := (histories s)(bp_history := None)\<rparr>)))"

definition lookup :: "SNN \<Rightarrow> nat \<Rightarrow> 64 word \<Rightarrow> error + bool \<times> nat \<times> SNN" where
  "lookup s tid branch_addr =
     ebind (computeIndex s branch_addr) (\<lambda>index.
     ebind (at (globalHistory s) tid) (\<lambda>ghr.
     ebind (at (table s) index) (\<lambda>entry.
     ebind (predict entry ghr) (\<lambda>prediction_val.
     ebind (updateGHR
              (s\<lparr>histories := (histories s)(nextHistory s \<mapsto>
                    \<lparr>bpGlobalHistory = ghr, bpLocalHistory = localHistory entry,
                     tableIndex = index, predTaken = (prediction_val \<ge> 0),
                     bpPredictionID = predictionID s,
                     predictionValue = prediction_val\<rparr>),
                 nextHistory := nextHistory s + 1,
                 predictionID := predictionID s + 1\<rparr>) tid (prediction_val \<ge> 0)) (\<lambda>s'.
       Inr (prediction_val \<ge> 0, nextHistory s, s'))))))"

definition update ::
  "SNNHeader \<Rightarrow> SNN \<Rightarrow> nat \<Rightarrow> 64 word \<Rightarrow> bool \<Rightarrow> nat \<Rightarrow> bool \<Rightarrow> error + SNN" where
  "update hh s tid branch_addr taken bp_history squashed =
     ebind (computeIndex s branch_addr) (\<lambda>index.
     ebind (at (table s) index) (\<lambda>entry.
       if \<not> nvalid entry then Inl AssertionFailed
       else
         case histories s bp_history of
           None \<Rightarrow> Inl DanglingHistory
         | Some history \<Rightarrow>
             if squashed
             then
               ebind (put (globalHistory s) tid (shl1 (bpGlobalHistory history))) (\<lambda>_.
               ebind (put (shl1 (bpGlobalHistory history)) 0 taken) (\<lambda>g.
                 if tableIndex history \<noteq> InvalidTableIndex hh
                 then
                   ebind (put (shl1 (bpLocalHistory history)) 0 taken) (\<lambda>l.
                     Inr (s\<lparr>globalHistory := (globalHistory s)[tid := g],
                            table := (table s)[index := entry\<lparr>localHistory := l\<rparr>]\<rparr>))
                 else Inr (s\<lparr>globalHistory := (globalHistory s)[tid := g]\<rparr>)))
             else
               ebind (fit entry history taken) (\<lambda>entry'.
               ebind (predict entry' (bpGlobalHistory history)) (\<lambda>_.
                 Inr (s\<lparr>table := (table s)[index := entry'],
                        histories := (histories s)(bp_history := None)\<rparr>)))))"

text \<open>The calls of the pipeline, and a run of them from a state of the predictor.\<close>

datatype call =
    UncondBranch nat "64 word"
  | BtbUpdate nat "64 word"
  | Lookup nat "64 word"
  | Update nat "64 word" bool nat bool
  | Squash nat nat

fun step :: "SNNHeader \<Rightarrow> SNN \<Rightarrow> call \<Rightarrow> error + SNN" where
  "step hh s (UncondBranch tid pc) = ebind (uncondBranch hh s tid pc) (\<lambda>(bp, s'). Inr s')"
| "step hh s (BtbUpdate tid a) = btbUpdate s tid a"
| "step hh s (Lookup tid a) = ebind (lookup s tid a) (\<lambda>(r, bp, s'). Inr s')"
| "step hh s (Update tid a taken bp squashed) = update hh s tid a taken bp squashed"
| "step hh s (Squash tid bp) = squash hh s tid bp"

fun run :: "SNNHeader \<Rightarrow> SNN \<Rightarrow> call list \<Rightarrow> error + SNN" where
  "run hh s [] = Inr s"
| "run hh s (c # cs) = ebind (step hh s c) (\<lambda>s'. run hh s' cs)"

section \<open>Concrete configurations\<close>

text \<open>
  The header constants used in the examples: the largest 32-bit value as the invalid table
  index, and neurons that pass the assertion of \<^verbatim>\<open>update\<close>.
\<close>

definition header0 :: SNNHeader where
  "header0 = \<lparr>InvalidTableIndex = 4294967295, InvalidPredictionID = 0,
               firstPredictionID = 1, neuronValid = True\<rparr>"

text \<open>
  The configuration of the end-to-end scenario of the specification: four table entries,
  one thread, dense length 4, one sparse segment of length 2, a reselection every 2
  training calls, counters of 6 bits.
\<close>

definition scenario_params :: SNNParams where
  "scenario_params =
     \<lparr>p_tableSize = 4, p_denseGlobalHistoryLen = 4, p_sparseGHSegLen = 2,
      p_sparseGHNSegs = 1, p_localHistoryLen = 1, p_ctrBits = 6, p_activeTerm = 2,
      p_numThreads = 1\<rparr>"

text \<open>
  A configuration whose dense window is shorter than a segment: dense length 1, two
  segments of length 2, a reselection on every training call.
\<close>

definition small_params :: SNNParams where
  "small_params =
     \<lparr>p_tableSize = 2, p_denseGlobalHistoryLen = 1, p_sparseGHSegLen = 2,
      p_sparseGHNSegs = 2, p_localHistoryLen = 2, p_ctrBits = 6, p_activeTerm = 1,
      p_numThreads = 1\<rparr>"

definition all_taken :: BPHistory where
  "all_taken =
     \<lparr>bpGlobalHistory = [True, True, True, True, True], bpLocalHistory = [False, False],
      tableIndex = 0, predTaken = True, bpPredictionID = 1, predictionValue = 0\<rparr>"

text \<open>
  The neuron of \<open>small_params\<close> after one training call with the history \<open>all_taken\<close>
  and the outcome taken.
\<close>

definition trained_once :: Neuron where
  "trained_once =
     \<lparr>denseGHLen = 1, sparseGHSegLen = 2, sparseGHNSegs = 2,
      localHistory = [False, False],
      denseWeights = [\<lparr>bits = 6, counter = 1\<rparr>, \<lparr>bits = 6, counter = 1\<rparr>],
      activeStart = 3,
      activeWeights = [\<lparr>bits = 6, counter = 0\<rparr>, \<lparr>bits = 6, counter = 0\<rparr>],
      activeTerm = 1, activeTime = 0,
      sparseSegs =
        [\<lparr>valid = True, ptr = 0, weight = \<lparr>bits = 6, counter = 1\<rparr>\<rparr>,
         \<lparr>valid = False, ptr = 0, weight = \<lparr>bits = 6, counter = 0\<rparr>\<rparr>],
      theta = 21, nvalid = True\<rparr>"


text \<open>
  The history snapshot of a prediction of the scenario before any outcome was seen:
  a global history of six zero bits, predicted taken with score 0.
\<close>

definition scenario_history :: BPHistory where
  "scenario_history =
     \<lparr>bpGlobalHistory = [False, False, False, False, False, False], bpLocalHistory = [False],
      tableIndex = 0, predTaken = True, bpPredictionID = 1, predictionValue = 0\<rparr>"

text \<open>
  The \<^verbatim>\<open>BPHistory\<close> objects of the first two predictions of a predictor of
  \<open>small_params\<close>, for a branch at address 0 and a branch at address 4.
\<close>

definition first_history :: BPHistory where
  "first_history =
     \<lparr>bpGlobalHistory = [False, False, False, False, False],
      bpLocalHistory = [False, False], tableIndex = 0, predTaken = True,
      bpPredictionID = 1, predictionValue = 0\<rparr>"

definition second_history :: BPHistory where
  "second_history =
     \<lparr>bpGlobalHistory = [True, False, False, False, False],
      bpLocalHistory = [False, False], tableIndex = 1, predTaken = True,
      bpPredictionID = 2, predictionValue = 0\<rparr>"

text \<open>The predictor of \<open>small_params\<close> after \<open>lookup\<close> of thread 0 at address 0.\<close>

definition after_lookup :: SNN where
  "after_lookup =
     \<lparr>globalHistoryLen = 5, tableSize = 2, emptyLocalHistory = [False],
      globalHistory = [[True, False, False, False, False]],
      table = [newNeuron header0 small_params, newNeuron header0 small_params],
      predictionID = 2, histories = (\<lambda>_. None)(0 \<mapsto> first_history), nextHistory = 1\<rparr>"

text \<open>
  Two later calls: a prediction at address 4, and a squashed update that presents the
  second history with address 0. The state they lead to.
\<close>

definition later_calls :: "call list" where
  "later_calls = [Lookup 0 4, Update 0 0 True 1 True]"

definition before_squash :: SNN where
  "before_squash =
     \<lparr>globalHistoryLen = 5, tableSize = 2, emptyLocalHistory = [False],
      globalHistory = [[True, True, False, False, False]],
      table = [(newNeuron header0 small_params)\<lparr>localHistory := [True, False]\<rparr>,
               newNeuron header0 small_params],
      predictionID = 3,
      histories = (\<lambda>_. None)(0 \<mapsto> first_history, 1 \<mapsto> second_history),
      nextHistory = 2\<rparr>"

text \<open>
  The state after the squashed update of the first history presented with address 4.
\<close>

definition after_squashed_update :: SNN where
  "after_squashed_update =
     \<lparr>globalHistoryLen = 5, tableSize = 2, emptyLocalHistory = [False],
      globalHistory = [[True, False, False, False, False]],
      table = [newNeuron header0 small_params,
               (newNeuron header0 small_params)\<lparr>localHistory := [True, False]\<rparr>],
      predictionID = 2, histories = (\<lambda>_. None)(0 \<mapsto> first_history), nextHistory = 1\<rparr>"

section \<open>The score as the specification writes it\<close>

text \<open>
  The specification gives the score as the bias, plus the signed dense weights over the
  first \<open>denseLen\<close> history bits, plus the signed active weights over the window starting
  at \<open>activeStart\<close>, plus the signed weights of the valid sparse segments at their
  positions, with \<open>sign(bit) = bit ? +1 : -1\<close>. The bias is the last dense weight.
\<close>

definition sign :: "bool \<Rightarrow> int" where
  "sign b = (if b then 1 else - 1)"


section \<open>Reachable neurons\<close>

text \<open>
  The states a neuron of the table passes through: it is constructed from the
  parameters, \<open>fit\<close> trains it with any history snapshot and outcome, and the predictor
  overwrites its local history. \<open>predict\<close> leaves it as it is.
\<close>

inductive reachable :: "SNNHeader \<Rightarrow> SNNParams \<Rightarrow> Neuron \<Rightarrow> bool"
  for hh :: SNNHeader and params :: SNNParams where
  constructed: "reachable hh params (newNeuron hh params)"
| trained: "reachable hh params n \<Longrightarrow> fit n bp_history taken = Inr n'
            \<Longrightarrow> reachable hh params n'"
| local_history: "reachable hh params n \<Longrightarrow> reachable hh params (n\<lparr>localHistory := l\<rparr>)"

text \<open>A segment that is not valid holds the weight zero.\<close>

definition masked :: "SparseSeg \<Rightarrow> bool" where
  "masked s \<longleftrightarrow> valid s \<or> counter (weight s) = 0"

text \<open>
  The shape of a neuron built from \<open>params\<close>: its geometry is that of the parameters, its
  vectors have the lengths the constructor gave them, every segment position lies in a
  window, and \<open>activeStart\<close> is the start of one of the \<open>sparseGHNSegs\<close> windows behind
  the dense history.
\<close>

definition neuron_inv :: "SNNParams \<Rightarrow> Neuron \<Rightarrow> bool" where
  "neuron_inv params n \<longleftrightarrow>
     denseGHLen n = p_denseGlobalHistoryLen params
     \<and> sparseGHSegLen n = p_sparseGHSegLen params
     \<and> sparseGHNSegs n = p_sparseGHNSegs params
     \<and> length (denseWeights n) = denseGHLen n + 1
     \<and> length (activeWeights n) = sparseGHSegLen n
     \<and> length (sparseSegs n) = sparseGHNSegs n
     \<and> list_all masked (sparseSegs n)
     \<and> list_all (\<lambda>s. ptr s < sparseGHSegLen n) (sparseSegs n)
     \<and> activeStart n \<in> (\<lambda>k. denseGHLen n + k * sparseGHSegLen n) ` {..<sparseGHNSegs n}"

text \<open>The parameters with at least one segment of at least one bit.\<close>

definition wf_params :: "SNNParams \<Rightarrow> bool" where
  "wf_params params \<longleftrightarrow> 0 < p_sparseGHSegLen params \<and> 0 < p_sparseGHNSegs params"

text \<open>A neuron with its local history blanked: the weights and the rest of its state.\<close>

definition without_localHistory :: "Neuron \<Rightarrow> Neuron" where
  "without_localHistory n = n\<lparr>localHistory := []\<rparr>"

text \<open>The calls that free the history object at \<open>bp\<close>.\<close>

fun frees :: "call \<Rightarrow> nat \<Rightarrow> bool" where
  "frees (Update tid a taken bp_history squashed) bp \<longleftrightarrow> bp_history = bp \<and> \<not> squashed"
| "frees (Squash tid bp_history) bp \<longleftrightarrow> bp_history = bp"
| "frees c bp \<longleftrightarrow> False"

lemmas counter_defs =
  minVal_def maxVal_def saturate_def newCounter_def read_def add_def increment_def
  decrement_def reset_def in_range_def

lemmas access_defs = ebind_def at_def put_def shl1_def b2s_def

section \<open>The saturating counter stays in its range\<close>

lemma saturate_bounds: "minVal b \<le> saturate b v \<and> saturate b v \<le> maxVal b"
  by (simp add: saturate_def minVal_def maxVal_def)

lemma in_range_apply_counter_op: "in_range (apply_counter_op c x)"
  using saturate_bounds [of "bits c"]
  by (cases x) (simp_all add: in_range_def add_def increment_def decrement_def)

lemma bits_apply_counter_op: "bits (apply_counter_op c x) = bits c"
  by (cases x) (simp_all add: add_def increment_def decrement_def)

lemma bits_foldl_counter_op: "bits (foldl apply_counter_op c xs) = bits c"
  by (induction xs arbitrary: c) (simp_all add: bits_apply_counter_op)

lemma in_range_foldl_counter_op:
  "in_range c \<Longrightarrow> in_range (foldl apply_counter_op c xs)"
  by (induction xs arbitrary: c) (simp_all add: in_range_apply_counter_op)

text \<open>
  C8. A counter of \<open>b \<ge> 1\<close> bits whose value lies in \<open>[-2^(b-1), 2^(b-1)-1]\<close> keeps its
  width and a value in that range under every sequence of \<open>increment\<close>, \<open>decrement\<close> and
  \<open>add delta\<close>.
\<close>

theorem counter_stays_in_range:
  assumes "0 < bits c" and "in_range c"
  shows "bits (foldl apply_counter_op c xs) = bits c
         \<and> - (2 ^ (bits c - 1)) \<le> counter (foldl apply_counter_op c xs)
         \<and> counter (foldl apply_counter_op c xs) \<le> 2 ^ (bits c - 1) - 1"
proof -
  have "in_range (foldl apply_counter_op c xs)"
    using assms(2) by (rule in_range_foldl_counter_op)
  then show ?thesis
    by (simp add: in_range_def minVal_def maxVal_def bits_foldl_counter_op)
qed

theorem counter_stays_in_range_witness:
  "0 < bits (newCounter 6 0) \<and> in_range (newCounter 6 0)
   \<and> counter (foldl apply_counter_op (newCounter 6 0) [Add 100, Increment, Decrement]) = 30
   \<and> counter (foldl apply_counter_op (newCounter 6 0) [Add (- 100), Decrement]) = - 32
   \<and> - (2 ^ (bits (newCounter 6 0) - 1))
        \<le> counter (foldl apply_counter_op (newCounter 6 0) [Add 100, Increment, Decrement])"
  using counter_stays_in_range [of "newCounter 6 0" "[Add 100, Increment, Decrement]"]
  by (simp add: counter_defs)

section \<open>Training is skipped on a confident correct prediction\<close>

text \<open>
  The skip test of \<open>fit\<close> compares the 32-bit \<^verbatim>\<open>abs\<close> of the score with \<open>theta\<close>. It
  is the magnitude of the score except at \<open>-2^31\<close>, where it is negative.
\<close>

lemma abs32_magnitude: "v \<noteq> - (2 ^ 31) \<Longrightarrow> abs32 v = \<bar>v\<bar>"
  by (simp add: abs32_def)

lemma abs32_int_min: "abs32 (- (2 ^ 31)) = - (2 ^ 31)"
  by (simp add: abs32_def)

lemma fit_skip_abs32:
  "taken = predTaken bp_history \<Longrightarrow> abs32 (predictionValue bp_history) > theta n \<Longrightarrow>
   fit n bp_history taken = Inr n"
  by (simp add: fit_def)

text \<open>
  C3. When the outcome equals the predicted direction and the magnitude of the predicted
  score exceeds \<open>theta\<close>, \<open>fit\<close> returns the neuron as it was: every weight, every
  segment, \<open>activeStart\<close>, \<open>activeTime\<close> and \<open>theta\<close> are unchanged. This holds for
  every score but \<open>-2^31\<close>, the one 32-bit value whose \<^verbatim>\<open>abs\<close> is not its magnitude.
\<close>

theorem fit_skip_unchanged:
  assumes "taken = predTaken bp_history"
    and "predictionValue bp_history \<noteq> - (2 ^ 31)"
    and "\<bar>predictionValue bp_history\<bar> > theta n"
  shows "fit n bp_history taken = Inr n"
  using assms by (simp add: fit_def abs32_magnitude)

theorem fit_skip_unchanged_witness:
  "True = predTaken (all_taken\<lparr>predictionValue := 20\<rparr>)
   \<and> predictionValue (all_taken\<lparr>predictionValue := 20\<rparr>) \<noteq> - (2 ^ 31)
   \<and> \<bar>predictionValue (all_taken\<lparr>predictionValue := 20\<rparr>)\<bar>
        > theta (newNeuron header0 small_params)
   \<and> fit (newNeuron header0 small_params) (all_taken\<lparr>predictionValue := 20\<rparr>) True
       = Inr (newNeuron header0 small_params)"
  using fit_skip_unchanged
    [of True "all_taken\<lparr>predictionValue := 20\<rparr>" "newNeuron header0 small_params"]
  by (simp add: all_taken_def newNeuron_def small_params_def initTheta_def)

section \<open>Reading the results of the error monad\<close>

lemma ebind_Inr_iff: "ebind m f = Inr y \<longleftrightarrow> (\<exists>x. m = Inr x \<and> f x = Inr y)"
  by (cases m) (simp_all add: ebind_def)


lemma at_Inr_iff: "at v i = Inr x \<longleftrightarrow> i < length v \<and> x = v ! i"
  by (auto simp: at_def)

lemma put_Inr_iff: "put v i x = Inr w \<longleftrightarrow> i < length v \<and> w = v[i := x]"
  by (auto simp: put_def)

lemma list_all_update: "list_all P xs \<Longrightarrow> P x \<Longrightarrow> list_all P (xs[i := x])"
  using set_update_subset_insert [of xs i x] by (auto simp: list_all_iff)

lemma fit_dense_length: "fit_dense is taken ghr ws = Inr ws' \<Longrightarrow> length ws' = length ws"
  by (induction "is" arbitrary: ws) (auto simp: ebind_Inr_iff)

lemma fit_active_length:
  "fit_active is taken ghr start ws = Inr ws' \<Longrightarrow> length ws' = length ws"
  by (induction "is" arbitrary: ws) (auto simp: ebind_Inr_iff)

lemma fit_sparse_length: "fit_sparse is taken ghr segs = Inr segs' \<Longrightarrow> length segs' = length segs"
  by (induction "is" arbitrary: segs) (auto simp: ebind_Inr_iff)

lemma saturate_zero: "saturate b 0 = 0"
proof -
  define k :: int where "k = 2 ^ (b - 1)"
  have "1 \<le> k" unfolding k_def by (rule one_le_power) simp
  then show ?thesis
    unfolding saturate_def minVal_def maxVal_def k_def [symmetric] by simp
qed

lemma add_zero_masked: "masked s \<Longrightarrow> masked (s\<lparr>weight := add (weight s) (x * (if valid s then 1 else 0))\<rparr>)"
  by (auto simp: masked_def add_def saturate_zero)

lemma fit_sparse_masked:
  "fit_sparse is taken ghr segs = Inr segs' \<Longrightarrow> list_all masked segs \<Longrightarrow> list_all masked segs'"
proof (induction "is" arbitrary: segs)
  case Nil
  then show ?case by simp
next
  case (Cons i "is")
  from Cons.prems(1) obtain b where i: "i < length segs"
    and rest: "fit_sparse is taken ghr
                 (segs[i := (segs ! i)\<lparr>weight := add (weight (segs ! i))
                    (b2s taken * b2s b * (if valid (segs ! i) then 1 else 0))\<rparr>]) = Inr segs'"
    by (auto simp: ebind_Inr_iff at_Inr_iff)
  from Cons.prems(2) i have "masked (segs ! i)"
    by (simp add: list_all_length)
  then show ?case
    using Cons.IH [OF rest] Cons.prems(2) by (simp add: list_all_update add_zero_masked)
qed

lemma fit_sparse_ptr:
  "fit_sparse is taken ghr segs = Inr segs' \<Longrightarrow> list_all (\<lambda>s. ptr s < L) segs
   \<Longrightarrow> list_all (\<lambda>s. ptr s < L) segs'"
proof (induction "is" arbitrary: segs)
  case Nil
  then show ?case by simp
next
  case (Cons i "is")
  from Cons.prems(1) obtain b where i: "i < length segs"
    and rest: "fit_sparse is taken ghr
                 (segs[i := (segs ! i)\<lparr>weight := add (weight (segs ! i))
                    (b2s taken * b2s b * (if valid (segs ! i) then 1 else 0))\<rparr>]) = Inr segs'"
    by (auto simp: ebind_Inr_iff at_Inr_iff)
  from Cons.prems(2) i have "ptr (segs ! i) < L"
    by (simp add: list_all_length)
  then show ?case
    using Cons.IH [OF rest] Cons.prems(2) by (simp add: list_all_update)
qed

lemma find_max_bound:
  "find_max is ws m mx = Inr j \<Longrightarrow> j = m \<or> j \<in> set is"
  by (induction "is" arbitrary: m mx) (auto simp: ebind_Inr_iff split: if_splits)


lemma next_activeStart_inv:
  assumes "activeStart n = denseGHLen n + k * sparseGHSegLen n"
    and "0 < sparseGHSegLen n"
    and "activeStart n div sparseGHSegLen n < sparseGHNSegs n"
  shows "next_activeStart n \<in> (\<lambda>k. denseGHLen n + k * sparseGHSegLen n) ` {..<sparseGHNSegs n}"
proof (cases "activeStart n div sparseGHSegLen n \<noteq> sparseGHNSegs n - 1")
  case True
  have "activeStart n div sparseGHSegLen n = denseGHLen n div sparseGHSegLen n + k"
    using assms(1,2) by simp
  with True assms(3) have "Suc k < sparseGHNSegs n" by linarith
  moreover have "next_activeStart n = denseGHLen n + Suc k * sparseGHSegLen n"
    using True assms(1) by (simp add: next_activeStart_def)
  ultimately show ?thesis by blast
next
  case False
  with assms(3) have "0 < sparseGHNSegs n" by linarith
  moreover have "next_activeStart n = denseGHLen n + 0 * sparseGHSegLen n"
    using False by (simp add: next_activeStart_def)
  ultimately show ?thesis by blast
qed


lemma reselect_Inr:
  assumes "reselect n = Inr n'"
  shows "\<exists>m seg th. 0 < sparseGHSegLen n
    \<and> activeStart n div sparseGHSegLen n < length (sparseSegs n)
    \<and> m < length (activeWeights n)
    \<and> (seg = sparseSegs n ! (activeStart n div sparseGHSegLen n) \<or> valid seg \<and> ptr seg = m)
    \<and> n' = n\<lparr>activeTime := 0,
               sparseSegs := (sparseSegs n)[activeStart n div sparseGHSegLen n := seg],
               theta := th, activeStart := next_activeStart n,
               activeWeights := map reset (activeWeights n)\<rparr>"
proof -
  from assms have s: "0 < sparseGHSegLen n"
    by (simp add: reselect_def split: if_splits)
  from assms s obtain m where
    idx: "activeStart n div sparseGHSegLen n < length (sparseSegs n)" and
    m: "m < length (activeWeights n)" and
    n': "n' = n\<lparr>activeTime := 0,
                 sparseSegs := (sparseSegs n)[activeStart n div sparseGHSegLen n :=
                   (if \<not> valid (sparseSegs n ! (activeStart n div sparseGHSegLen n))
                    then (sparseSegs n ! (activeStart n div sparseGHSegLen n))\<lparr>valid := True,
                           weight := add (weight (sparseSegs n ! (activeStart n div sparseGHSegLen n)))
                                       (read (activeWeights n ! m)),
                           ptr := m\<rparr>
                    else if ptr (sparseSegs n ! (activeStart n div sparseGHSegLen n)) = m
                    then sparseSegs n ! (activeStart n div sparseGHSegLen n)
                    else (sparseSegs n ! (activeStart n div sparseGHSegLen n))\<lparr>ptr := m,
                           weight := add (reset (weight (sparseSegs n ! (activeStart n div sparseGHSegLen n))))
                                       (read (activeWeights n ! m))\<rparr>)],
                 theta := (if \<not> valid (sparseSegs n ! (activeStart n div sparseGHSegLen n))
                           then theta n + 2 else theta n),
                 activeStart := next_activeStart n,
                 activeWeights := map reset (activeWeights n)\<rparr>"
    by (auto simp: reselect_def ebind_Inr_iff at_Inr_iff)
  show ?thesis
    apply (rule exI [of _ m])
    apply (rule exI [of _ "(if \<not> valid (sparseSegs n ! (activeStart n div sparseGHSegLen n))
                    then (sparseSegs n ! (activeStart n div sparseGHSegLen n))\<lparr>valid := True,
                           weight := add (weight (sparseSegs n ! (activeStart n div sparseGHSegLen n)))
                                       (read (activeWeights n ! m)),
                           ptr := m\<rparr>
                    else if ptr (sparseSegs n ! (activeStart n div sparseGHSegLen n)) = m
                    then sparseSegs n ! (activeStart n div sparseGHSegLen n)
                    else (sparseSegs n ! (activeStart n div sparseGHSegLen n))\<lparr>ptr := m,
                           weight := add (reset (weight (sparseSegs n ! (activeStart n div sparseGHSegLen n))))
                                       (read (activeWeights n ! m))\<rparr>)"])
    apply (rule exI [of _ "(if \<not> valid (sparseSegs n ! (activeStart n div sparseGHSegLen n))
                           then theta n + 2 else theta n)"])
    using s idx m n' by simp
qed

lemma reselect_inv:
  assumes inv: "neuron_inv p n" and r: "reselect n = Inr n'"
  shows "neuron_inv p n'"
proof -
  from reselect_Inr [OF r] obtain m seg th where
    s: "0 < sparseGHSegLen n" and
    idx: "activeStart n div sparseGHSegLen n < length (sparseSegs n)" and
    m: "m < length (activeWeights n)" and
    seg: "seg = sparseSegs n ! (activeStart n div sparseGHSegLen n) \<or> valid seg \<and> ptr seg = m" and
    n': "n' = n\<lparr>activeTime := 0,
               sparseSegs := (sparseSegs n)[activeStart n div sparseGHSegLen n := seg],
               theta := th, activeStart := next_activeStart n,
               activeWeights := map reset (activeWeights n)\<rparr>"
    by blast
  from inv obtain k where k: "activeStart n = denseGHLen n + k * sparseGHSegLen n"
    unfolding neuron_inv_def by blast
  from inv idx have "activeStart n div sparseGHSegLen n < sparseGHNSegs n"
    by (simp add: neuron_inv_def)
  from next_activeStart_inv [OF k s this]
  have start: "next_activeStart n
      \<in> (\<lambda>k. denseGHLen n + k * sparseGHSegLen n) ` {..<sparseGHNSegs n}" .
  from inv idx seg have seg1: "masked seg"
    by (auto simp: neuron_inv_def list_all_length masked_def)
  from inv idx seg m have seg2: "ptr seg < sparseGHSegLen n"
    by (auto simp: neuron_inv_def list_all_length)
  show ?thesis
    using inv start seg1 seg2 unfolding n' neuron_inv_def
    by (auto simp: list_all_update)
qed

lemma fit_inv:
  assumes inv: "neuron_inv p n" and f: "fit n bp_history taken = Inr n'"
  shows "neuron_inv p n'"
proof (cases "taken = predTaken bp_history \<and> abs32 (predictionValue bp_history) > theta n")
  case True
  with f inv show ?thesis by (simp add: fit_def)
next
  case False
  with f obtain dense segs active where
    d: "fit_dense [0..<denseGHLen n] taken (bpGlobalHistory bp_history)
          ((denseWeights n)[length (denseWeights n) - 1 :=
             (if taken then increment (last (denseWeights n))
              else decrement (last (denseWeights n)))]) = Inr dense" and
    sg: "fit_sparse [0..<sparseGHNSegs n] taken (bpGlobalHistory bp_history) (sparseSegs n)
          = Inr segs" and
    a: "fit_active [0..<sparseGHSegLen n] taken (bpGlobalHistory bp_history) (activeStart n)
          (activeWeights n) = Inr active" and
    n': "(if activeTime n + 1 \<ge> activeTerm n
          then reselect (n\<lparr>denseWeights := dense, sparseSegs := segs,
                           activeWeights := active, activeTime := activeTime n + 1\<rparr>)
          else Inr (n\<lparr>denseWeights := dense, sparseSegs := segs,
                      activeWeights := active, activeTime := activeTime n + 1\<rparr>)) = Inr n'"
    by (auto simp: fit_def ebind_Inr_iff split: if_splits)
  have mid: "neuron_inv p (n\<lparr>denseWeights := dense, sparseSegs := segs,
                      activeWeights := active, activeTime := activeTime n + 1\<rparr>)"
    using inv fit_dense_length [OF d] fit_active_length [OF a] fit_sparse_length [OF sg]
      fit_sparse_masked [OF sg] fit_sparse_ptr [OF sg, of "sparseGHSegLen n"]
    by (auto simp: neuron_inv_def)
  show ?thesis
  proof (cases "activeTime n + 1 \<ge> activeTerm n")
    case True
    with n' mid show ?thesis by (simp add: reselect_inv)
  next
    case False
    with n' mid show ?thesis by simp
  qed
qed

lemma newNeuron_inv: "wf_params p \<Longrightarrow> neuron_inv p (newNeuron hh p)"
  by (auto simp: neuron_inv_def newNeuron_def wf_params_def list_all_iff masked_def newCounter_def)

lemma reachable_inv: "reachable hh p n \<Longrightarrow> wf_params p \<Longrightarrow> neuron_inv p n"
proof (induction rule: reachable.induct)
  case constructed
  then show ?case by (rule newNeuron_inv)
next
  case (trained n bp_history taken n')
  then show ?case by (simp add: fit_inv)
next
  case (local_history n l)
  then have "neuron_inv p n" by simp
  then show ?case by (auto simp: neuron_inv_def)
qed


lemma reselect_masked:
  assumes "list_all masked (sparseSegs n)" and r: "reselect n = Inr n'"
  shows "list_all masked (sparseSegs n')"
proof -
  from reselect_Inr [OF r] obtain m seg th where
    idx: "activeStart n div sparseGHSegLen n < length (sparseSegs n)" and
    seg: "seg = sparseSegs n ! (activeStart n div sparseGHSegLen n) \<or> valid seg \<and> ptr seg = m" and
    n': "n' = n\<lparr>activeTime := 0,
               sparseSegs := (sparseSegs n)[activeStart n div sparseGHSegLen n := seg],
               theta := th, activeStart := next_activeStart n,
               activeWeights := map reset (activeWeights n)\<rparr>"
    by blast
  from assms(1) idx seg have "masked seg"
    by (auto simp: list_all_length masked_def)
  with assms(1) show ?thesis
    unfolding n' by (simp add: list_all_update)
qed

lemma fit_masked:
  assumes m: "list_all masked (sparseSegs n)" and f: "fit n bp_history taken = Inr n'"
  shows "list_all masked (sparseSegs n')"
proof (cases "taken = predTaken bp_history \<and> abs32 (predictionValue bp_history) > theta n")
  case True
  with f m show ?thesis by (simp add: fit_def)
next
  case False
  with f obtain dense segs active where
    d: "fit_dense [0..<denseGHLen n] taken (bpGlobalHistory bp_history)
          ((denseWeights n)[length (denseWeights n) - 1 :=
             (if taken then increment (last (denseWeights n))
              else decrement (last (denseWeights n)))]) = Inr dense" and
    sg: "fit_sparse [0..<sparseGHNSegs n] taken (bpGlobalHistory bp_history) (sparseSegs n)
          = Inr segs" and
    a: "fit_active [0..<sparseGHSegLen n] taken (bpGlobalHistory bp_history) (activeStart n)
          (activeWeights n) = Inr active" and
    n': "(if activeTime n + 1 \<ge> activeTerm n
          then reselect (n\<lparr>denseWeights := dense, sparseSegs := segs,
                           activeWeights := active, activeTime := activeTime n + 1\<rparr>)
          else Inr (n\<lparr>denseWeights := dense, sparseSegs := segs,
                      activeWeights := active, activeTime := activeTime n + 1\<rparr>)) = Inr n'"
    by (auto simp: fit_def ebind_Inr_iff split: if_splits)
  have mid: "list_all masked (sparseSegs (n\<lparr>denseWeights := dense, sparseSegs := segs,
                      activeWeights := active, activeTime := activeTime n + 1\<rparr>))"
    using m fit_sparse_masked [OF sg] by simp
  show ?thesis
  proof (cases "activeTime n + 1 \<ge> activeTerm n")
    case True
    with n' show ?thesis using reselect_masked [OF mid] by simp
  next
    case False
    with n' mid show ?thesis by auto
  qed
qed

lemma reachable_masked: "reachable hh p n \<Longrightarrow> list_all masked (sparseSegs n)"
proof (induction rule: reachable.induct)
  case constructed
  show ?case by (simp add: newNeuron_def list_all_iff masked_def newCounter_def)
next
  case (trained n bp_history taken n')
  then show ?case by (simp add: fit_masked)
next
  case (local_history n l)
  then show ?case by simp
qed

lemma b2s_sign: "b2s b = sign b"
  by (simp add: b2s_def sign_def)



lemma predict_sparse_sum:
  "\<forall>i\<in>set is. i < length segs \<and> ptr (segs ! i) < length ghr \<Longrightarrow>
   predict_sparse is ghr segs acc
     = Inr (acc + (\<Sum>i\<leftarrow>is. sign (ghr ! ptr (segs ! i)) * read (weight (segs ! i))))"
  by (induction "is" arbitrary: acc) (simp_all add: ebind_def at_def b2s_sign)


lemma sum_list_nth: "(\<Sum>i\<leftarrow>[0..<length xs]. g (xs ! i)) = (\<Sum>x\<leftarrow>xs. g x)"
proof -
  have "map (\<lambda>i. g (xs ! i)) [0..<length xs] = map g (map ((!) xs) [0..<length xs])"
    by simp
  then show ?thesis by (simp only: map_nth)
qed

lemma masked_sum:
  "list_all masked segs \<Longrightarrow>
   (\<Sum>s\<leftarrow>segs. sign (ghr ! ptr s) * read (weight s))
     = (\<Sum>s\<leftarrow>filter valid segs. sign (ghr ! ptr s) * read (weight s))"
  by (induction segs) (auto simp: masked_def read_def)



section \<open>A training call evaluated\<close>

lemmas neuron_eval =
  fit_def abs32_def reselect_def next_activeStart_def predict_def newNeuron_def initTheta_def
  ebind_def at_def put_def shl1_def b2s_def
  minVal_def maxVal_def saturate_def newCounter_def read_def add_def increment_def
  decrement_def reset_def

lemma fit_small:
  "fit (newNeuron header0 small_params) all_taken True = Inr trained_once"
  by (simp add: neuron_eval header0_def small_params_def all_taken_def trained_once_def
        upt_conv_Cons numeral_2_eq_2)

text \<open>
  With the score \<open>-2^31\<close> the test does not skip, whatever \<open>theta\<close> is: the same call
  trains the neuron.
\<close>

lemma fit_int_min_trains:
  "fit (newNeuron header0 small_params) (all_taken\<lparr>predictionValue := - (2 ^ 31)\<rparr>) True
     = Inr trained_once"
  by (simp add: neuron_eval header0_def small_params_def all_taken_def trained_once_def
        upt_conv_Cons numeral_2_eq_2)

lemma reachable_trained_once: "reachable header0 small_params trained_once"
  using reachable.constructed [of header0 small_params] fit_small
  by (rule reachable.trained)

lemma wf_small_params: "wf_params small_params"
  by (simp add: wf_params_def small_params_def)

section \<open>The calls of the predictor, when they succeed\<close>



section \<open>Segments that are not valid weigh nothing\<close>

text \<open>
  C9. In every reachable neuron each sparse segment that is not valid reads the weight 0:
  the constructor starts it at 0, \<open>fit\<close> adds the training step times the valid flag,
  and a reselection touches a segment that is not valid only to make it valid. So the sum
  that \<open>predict\<close> takes over all segments is the sum over the valid ones, and the last
  loop of \<open>predict\<close> adds exactly that sum to what it is given.
\<close>

theorem invalid_segments_weigh_zero:
  assumes "reachable hh params n"
  shows "(\<forall>s\<in>set (sparseSegs n). \<not> valid s \<longrightarrow> read (weight s) = 0)
    \<and> (\<Sum>s\<leftarrow>sparseSegs n. sign (history ! ptr s) * read (weight s))
        = (\<Sum>s\<leftarrow>filter valid (sparseSegs n). sign (history ! ptr s) * read (weight s))
    \<and> (wf_params params \<and> p_sparseGHSegLen params \<le> length history \<longrightarrow>
         predict_sparse [0..<sparseGHNSegs n] history (sparseSegs n) acc
           = Inr (acc + (\<Sum>s\<leftarrow>filter valid (sparseSegs n).
                           sign (history ! ptr s) * read (weight s))))"
proof (intro conjI impI)
  have m: "list_all masked (sparseSegs n)"
    using assms by (rule reachable_masked)
  then show "\<forall>s\<in>set (sparseSegs n). \<not> valid s \<longrightarrow> read (weight s) = 0"
    by (auto simp: list_all_iff masked_def read_def)
  show "(\<Sum>s\<leftarrow>sparseSegs n. sign (history ! ptr s) * read (weight s))
        = (\<Sum>s\<leftarrow>filter valid (sparseSegs n). sign (history ! ptr s) * read (weight s))"
    using m by (rule masked_sum)
  assume "wf_params params \<and> p_sparseGHSegLen params \<le> length history"
  then have wf: "wf_params params" and len: "p_sparseGHSegLen params \<le> length history"
    by simp_all
  from reachable_inv [OF assms wf]
  have ls: "length (sparseSegs n) = sparseGHNSegs n"
    and s: "sparseGHSegLen n = p_sparseGHSegLen params"
    and pt: "list_all (\<lambda>s. ptr s < sparseGHSegLen n) (sparseSegs n)"
    by (auto simp: neuron_inv_def)
  have "\<forall>i\<in>set [0..<sparseGHNSegs n]. i < length (sparseSegs n)
          \<and> ptr (sparseSegs n ! i) < length history"
    using pt ls s len by (fastforce simp: list_all_length)
  then show "predict_sparse [0..<sparseGHNSegs n] history (sparseSegs n) acc
           = Inr (acc + (\<Sum>s\<leftarrow>filter valid (sparseSegs n).
                           sign (history ! ptr s) * read (weight s)))"
    using sum_list_nth [of "\<lambda>s. sign (history ! ptr s) * read (weight s)" "sparseSegs n"]
      masked_sum [OF m, of history] ls
    by (simp add: predict_sparse_sum)
qed

theorem invalid_segments_weigh_zero_witness:
  "reachable header0 small_params trained_once
   \<and> sparseSegs trained_once ! 1 \<in> set (sparseSegs trained_once)
   \<and> \<not> valid (sparseSegs trained_once ! 1)
   \<and> read (weight (sparseSegs trained_once ! 1)) = 0
   \<and> wf_params small_params
   \<and> p_sparseGHSegLen small_params \<le> length [True, False, True, True, True]
   \<and> predict_sparse [0..<sparseGHNSegs trained_once] [True, False, True, True, True]
        (sparseSegs trained_once) 7 = Inr 8"
  using invalid_segments_weigh_zero
    [OF reachable_trained_once, of "[True, False, True, True, True]" 7]
    reachable_trained_once wf_small_params
  by (simp add: trained_once_def small_params_def sign_def read_def)

section \<open>The score of \<open>predict\<close>\<close>



section \<open>Index and shift\<close>

lemma computeIndex_Inr_iff:
  "computeIndex s a = Inr i \<longleftrightarrow>
     0 < tableSize s \<and> i = unat (drop_bit 2 a) mod tableSize s mod 2 ^ 32"
  by (auto simp: computeIndex_def)

lemma computeIndex_in_range: "computeIndex s a = Inr i \<Longrightarrow> i < tableSize s"
proof -
  assume "computeIndex s a = Inr i"
  then have t: "0 < tableSize s" and i: "i = unat (drop_bit 2 a) mod tableSize s mod 2 ^ 32"
    by (simp_all add: computeIndex_Inr_iff)
  have "i \<le> unat (drop_bit 2 a) mod tableSize s"
    unfolding i by (rule mod_less_eq_dividend)
  also have "\<dots> < tableSize s" using t by simp
  finally show ?thesis .
qed

lemma shl1_length: "length (shl1 b) = length b"
  by (simp add: shl1_def)

lemma shl1_nth: "0 < i \<Longrightarrow> i < length b \<Longrightarrow> shl1 b ! i = b ! (i - 1)"
  by (cases i) (simp_all add: shl1_def)

lemma updateGHR_Inr_iff:
  "updateGHR s tid taken = Inr s' \<longleftrightarrow>
     tid < length (globalHistory s) \<and> globalHistory s ! tid \<noteq> []
     \<and> s' = s\<lparr>globalHistory := (globalHistory s)[tid := (shl1 (globalHistory s ! tid))[0 := taken]]\<rparr>"
  by (auto simp: updateGHR_def ebind_Inr_iff at_Inr_iff put_Inr_iff shl1_length)

lemma lookup_InrD:
  assumes "lookup s tid a = Inr (r, bp, s1)"
  shows "\<exists>index v. computeIndex s a = Inr index \<and> index < length (table s)
     \<and> tid < length (globalHistory s) \<and> globalHistory s ! tid \<noteq> []
     \<and> predict (table s ! index) (globalHistory s ! tid) = Inr v
     \<and> r = (0 \<le> v) \<and> bp = nextHistory s
     \<and> s1 = s\<lparr>histories := (histories s)(nextHistory s \<mapsto>
                \<lparr>bpGlobalHistory = globalHistory s ! tid,
                 bpLocalHistory = localHistory (table s ! index),
                 tableIndex = index, predTaken = (0 \<le> v),
                 bpPredictionID = predictionID s, predictionValue = v\<rparr>),
            nextHistory := nextHistory s + 1,
            predictionID := predictionID s + 1,
            globalHistory := (globalHistory s)[tid := (shl1 (globalHistory s ! tid))[0 := (0 \<le> v)]]\<rparr>"
  using assms
  by (auto simp: lookup_def ebind_Inr_iff at_Inr_iff updateGHR_Inr_iff)

section \<open>What the calls leave alone\<close>

lemma step_frame:
  assumes "step hh s c = Inr s'"
  shows "length (globalHistory s') = length (globalHistory s)
     \<and> length (table s') = length (table s)
     \<and> nextHistory s \<le> nextHistory s'
     \<and> (\<forall>h < nextHistory s. \<not> frees c h \<longrightarrow> histories s' h = histories s h)"
proof (cases c)
  case (UncondBranch tid pc)
  with assms show ?thesis
    by (auto simp: uncondBranch_def ebind_Inr_iff at_Inr_iff updateGHR_Inr_iff)
next
  case (BtbUpdate tid a)
  with assms show ?thesis
    by (auto simp: btbUpdate_def ebind_Inr_iff at_Inr_iff put_Inr_iff)
next
  case (Lookup tid a)
  with assms show ?thesis
    by (auto simp: lookup_def ebind_Inr_iff at_Inr_iff updateGHR_Inr_iff)
next
  case (Update tid a taken bp squashed)
  with assms show ?thesis
    by (auto simp: update_def ebind_Inr_iff at_Inr_iff put_Inr_iff
          split: if_splits option.splits)
next
  case (Squash tid bp)
  with assms show ?thesis
    by (auto simp: squash_def ebind_Inr_iff at_Inr_iff put_Inr_iff
          split: if_splits option.splits)
qed

lemma run_frame:
  assumes "run hh s cs = Inr s'" and "h < nextHistory s" and "\<forall>c\<in>set cs. \<not> frees c h"
  shows "length (globalHistory s') = length (globalHistory s)
     \<and> length (table s') = length (table s)
     \<and> histories s' h = histories s h"
  using assms
proof (induction cs arbitrary: s)
  case Nil
  then show ?case by simp
next
  case (Cons c cs)
  from Cons.prems(1) obtain s1 where c: "step hh s c = Inr s1" and r: "run hh s1 cs = Inr s'"
    by (auto simp: ebind_Inr_iff)
  from step_frame [OF c] Cons.prems(2,3)
  have f: "length (globalHistory s1) = length (globalHistory s)"
    "length (table s1) = length (table s)" "h < nextHistory s1"
    "histories s1 h = histories s h"
    by auto
  from Cons.IH [OF r f(3)] Cons.prems(3) f show ?case by simp
qed

section \<open>Squash restores the histories\<close>

text \<open>
  C2. A prediction made by \<open>lookup\<close> for thread \<open>tid\<close> leaves a history object at
  \<open>bp\<close>. After any later calls that do not free it, \<open>squash\<close> with \<open>bp\<close> succeeds and
  puts the global history of the thread back to what it was before the prediction; when
  the object carries a valid table index, which is the index of the predicted address,
  the local history of that neuron is back to what it was before the prediction as
  well; and apart from local histories the table is what it was before the squash.
\<close>

theorem squash_restores_history:
  assumes l: "lookup s tid a = Inr (r, bp, s1)"
    and later: "run hh s1 cs = Inr s2"
    and live: "\<forall>c\<in>set cs. \<not> frees c bp"
  shows "\<exists>history s3. histories s2 bp = Some history
     \<and> computeIndex s a = Inr (tableIndex history)
     \<and> squash hh s2 tid bp = Inr s3
     \<and> globalHistory s3 ! tid = globalHistory s ! tid
     \<and> (tableIndex history \<noteq> InvalidTableIndex hh \<longrightarrow>
          localHistory (table s3 ! tableIndex history)
            = localHistory (table s ! tableIndex history))
     \<and> map without_localHistory (table s3) = map without_localHistory (table s2)"
proof -
  from lookup_InrD [OF l] obtain index v where
    ci: "computeIndex s a = Inr index" and i: "index < length (table s)" and
    t: "tid < length (globalHistory s)" and bp: "bp = nextHistory s" and
    s1: "s1 = s\<lparr>histories := (histories s)(nextHistory s \<mapsto>
                \<lparr>bpGlobalHistory = globalHistory s ! tid,
                 bpLocalHistory = localHistory (table s ! index),
                 tableIndex = index, predTaken = (0 \<le> v),
                 bpPredictionID = predictionID s, predictionValue = v\<rparr>),
            nextHistory := nextHistory s + 1,
            predictionID := predictionID s + 1,
            globalHistory := (globalHistory s)[tid := (shl1 (globalHistory s ! tid))[0 := (0 \<le> v)]]\<rparr>"
    by blast
  define history where "history =
     \<lparr>bpGlobalHistory = globalHistory s ! tid,
      bpLocalHistory = localHistory (table s ! index),
      tableIndex = index, predTaken = (0 \<le> v),
      bpPredictionID = predictionID s, predictionValue = v\<rparr>"
  have h1: "histories s1 bp = Some history" and n1: "bp < nextHistory s1"
    and g1: "length (globalHistory s1) = length (globalHistory s)"
    and t1: "length (table s1) = length (table s)"
    by (simp_all add: s1 bp history_def)
  from run_frame [OF later n1 live] h1 g1 t1
  have h2: "histories s2 bp = Some history"
    and g2: "length (globalHistory s2) = length (globalHistory s)"
    and t2: "length (table s2) = length (table s)"
    by simp_all
  have sel: "bpGlobalHistory history = globalHistory s ! tid"
    "bpLocalHistory history = localHistory (table s ! index)" "tableIndex history = index"
    by (simp_all add: history_def)
  show ?thesis
  proof (cases "index \<noteq> InvalidTableIndex hh")
    case True
    have "squash hh s2 tid bp =
        Inr (s2\<lparr>globalHistory := (globalHistory s2)[tid := globalHistory s ! tid],
                table := (table s2)[index :=
                   (table s2 ! index)\<lparr>localHistory := localHistory (table s ! index)\<rparr>],
                histories := (histories s2)(bp := None)\<rparr>)"
      using True h2 g2 t2 t i by (simp add: squash_def sel ebind_def put_def at_def)
    then show ?thesis
      using h2 ci sel g2 t2 t i
      by (simp add: map_update without_localHistory_def list_update_same_conv)
  next
    case False
    have "squash hh s2 tid bp =
        Inr (s2\<lparr>globalHistory := (globalHistory s2)[tid := globalHistory s ! tid],
                histories := (histories s2)(bp := None)\<rparr>)"
      using False h2 g2 t2 t i by (simp add: squash_def sel ebind_def put_def at_def)
    then show ?thesis
      using h2 ci sel g2 t False by simp
  qed
qed

section \<open>Evaluating the predictor\<close>

lemma replicate_numeral: "replicate (numeral k) x = x # replicate (pred_numeral k) x"
  by (simp add: numeral_eq_Suc)

lemma list_update_Cons_numeral: "(x # xs)[numeral k := y] = x # xs[pred_numeral k := y]"
  by (simp add: numeral_eq_Suc)

lemmas list_eval = upt_conv_Cons replicate_numeral list_update_Cons_numeral

lemmas snn_eval =
  newSNN_def computeIndex_def updateGHR_def uncondBranch_def btbUpdate_def squash_def
  lookup_def update_def

lemma predict_fresh_small:
  "length ghr = 5 \<Longrightarrow> predict (newNeuron header0 small_params) ghr = Inr 0"
  by (simp add: neuron_eval small_params_def list_eval)

lemma lookup_small: "lookup (newSNN header0 small_params) 0 0 = Inr (True, 0, after_lookup)"
  by (simp add: snn_eval neuron_eval header0_def small_params_def list_eval
        after_lookup_def first_history_def)

lemma run_later_calls: "run header0 after_lookup later_calls = Inr before_squash"
  by (simp add: snn_eval neuron_eval header0_def small_params_def list_eval
        after_lookup_def first_history_def second_history_def before_squash_def
        later_calls_def)

lemma update_squashed_small:
  "update header0 after_lookup 0 4 True 0 True = Inr after_squashed_update"
  by (simp add: snn_eval neuron_eval header0_def small_params_def list_eval
        after_lookup_def first_history_def after_squashed_update_def)

theorem squash_restores_history_witness:
  "lookup (newSNN header0 small_params) 0 0 = Inr (True, 0, after_lookup)
   \<and> run header0 after_lookup later_calls = Inr before_squash
   \<and> later_calls = [Lookup 0 4, Update 0 0 True 1 True]
   \<and> \<not> frees (Lookup 0 4) 0 \<and> \<not> frees (Update 0 0 True 1 True) 0
   \<and> globalHistory before_squash ! 0 \<noteq> globalHistory (newSNN header0 small_params) ! 0
   \<and> localHistory (table before_squash ! 0)
        \<noteq> localHistory (table (newSNN header0 small_params) ! 0)
   \<and> (\<exists>history s3. histories before_squash 0 = Some history
        \<and> computeIndex (newSNN header0 small_params) 0 = Inr (tableIndex history)
        \<and> tableIndex history \<noteq> InvalidTableIndex header0
        \<and> squash header0 before_squash 0 0 = Inr s3
        \<and> globalHistory s3 ! 0 = globalHistory (newSNN header0 small_params) ! 0
        \<and> localHistory (table s3 ! tableIndex history)
             = localHistory (table (newSNN header0 small_params) ! tableIndex history)
        \<and> map without_localHistory (table s3) = map without_localHistory (table before_squash))"
proof -
  have live: "\<forall>c\<in>set later_calls. \<not> frees c 0"
    by (simp add: later_calls_def)
  have changed: "globalHistory before_squash ! 0 \<noteq> globalHistory (newSNN header0 small_params) ! 0
     \<and> localHistory (table before_squash ! 0)
        \<noteq> localHistory (table (newSNN header0 small_params) ! 0)"
    by (simp add: before_squash_def newSNN_def newNeuron_def small_params_def list_eval)
  have tok: "histories before_squash 0 = Some first_history"
    "tableIndex first_history \<noteq> InvalidTableIndex header0"
    by (simp_all add: before_squash_def first_history_def header0_def)
  from squash_restores_history [OF lookup_small run_later_calls live]
  show ?thesis
    using lookup_small run_later_calls changed tok by (auto simp: later_calls_def)
qed

section \<open>The squashed update\<close>

text \<open>
  C7, as stated, fails. The history object at address 0 was made by the prediction for
  the branch at address 0 and carries table index 0. A squashed update that presents it
  with the branch address 4 leaves the local history of neuron 0 as it was, not the
  snapshot shifted with the outcome, and the object stays on the heap.
\<close>

theorem squashed_update_counterexample:
  "update header0 after_lookup 0 4 True 0 True = Inr after_squashed_update
   \<and> histories after_lookup 0 = Some first_history
   \<and> tableIndex first_history = 0
   \<and> tableIndex first_history \<noteq> InvalidTableIndex header0
   \<and> (shl1 (bpLocalHistory first_history))[0 := True] = [True, False]
   \<and> localHistory (table after_squashed_update ! tableIndex first_history) = [False, False]
   \<and> localHistory (table after_squashed_update ! tableIndex first_history)
        \<noteq> (shl1 (bpLocalHistory first_history))[0 := True]
   \<and> histories after_squashed_update 0 = Some first_history
   \<and> histories after_squashed_update 0 \<noteq> None"
  using update_squashed_small
  by (simp add: after_lookup_def after_squashed_update_def first_history_def header0_def
        newNeuron_def small_params_def shl1_def list_eval)

text \<open>
  C7, amended. A squashed update, given a table entry at the index of the presented
  address that passes the assertion, a live history object and non-empty snapshots,
  returns this state: the global history of the thread is the snapshot shifted by one
  with bit 0 the outcome; when the object carries a valid table index, the local history
  of the neuron at the index of the presented address is the local snapshot shifted by
  one with bit 0 the outcome; nothing else of the table changes, so no weight is trained;
  and the history object is not freed.
\<close>

theorem squashed_update_rewinds:
  assumes "computeIndex s a = Inr index" and "index < length (table s)"
    and "nvalid (table s ! index)" and "histories s bp = Some history"
    and "tid < length (globalHistory s)" and "bpGlobalHistory history \<noteq> []"
    and "tableIndex history \<noteq> InvalidTableIndex hh \<longrightarrow> bpLocalHistory history \<noteq> []"
  shows "update hh s tid a taken bp True =
      Inr (s\<lparr>globalHistory :=
               (globalHistory s)[tid := (shl1 (bpGlobalHistory history))[0 := taken]],
             table :=
               (if tableIndex history \<noteq> InvalidTableIndex hh
                then (table s)[index := (table s ! index)
                        \<lparr>localHistory := (shl1 (bpLocalHistory history))[0 := taken]\<rparr>]
                else table s)\<rparr>)"
  using assms by (simp add: update_def ebind_def at_def put_def shl1_length)

theorem squashed_update_rewinds_witness:
  "computeIndex after_lookup 4 = Inr 1 \<and> 1 < length (table after_lookup)
   \<and> nvalid (table after_lookup ! 1) \<and> histories after_lookup 0 = Some first_history
   \<and> 0 < length (globalHistory after_lookup) \<and> bpGlobalHistory first_history \<noteq> []
   \<and> tableIndex first_history \<noteq> InvalidTableIndex header0
   \<and> bpLocalHistory first_history \<noteq> []
   \<and> update header0 after_lookup 0 4 True 0 True =
       Inr (after_lookup\<lparr>globalHistory := [[True, False, False, False, False]],
              table := [newNeuron header0 small_params,
                        (newNeuron header0 small_params)\<lparr>localHistory := [True, False]\<rparr>]\<rparr>)"
proof -
  have p: "computeIndex after_lookup 4 = Inr 1" "1 < length (table after_lookup)"
    "nvalid (table after_lookup ! 1)" "histories after_lookup 0 = Some first_history"
    "0 < length (globalHistory after_lookup)" "bpGlobalHistory first_history \<noteq> []"
    "tableIndex first_history \<noteq> InvalidTableIndex header0"
    "bpLocalHistory first_history \<noteq> []"
    by (simp_all add: computeIndex_def after_lookup_def first_history_def header0_def
          newNeuron_def)
  have v: "(shl1 (bpGlobalHistory first_history))[0 := True] = [True, False, False, False, False]"
    "(shl1 (bpLocalHistory first_history))[0 := True] = [True, False]"
    by (simp_all add: first_history_def shl1_def)
  from squashed_update_rewinds [of after_lookup 4 1 0 first_history 0 header0 True,
      OF p(1) p(2) p(3) p(4) p(5) p(6)] p(7) p(8)
  show ?thesis using p by (simp add: v after_lookup_def)
qed

section \<open>The BTB update\<close>

text \<open>
  C10. \<open>btbUpdate\<close> writes \<open>False\<close> to bit 0 of the global history of the thread and to
  bit 0 of the local history of the neuron at the index of the branch address, which is
  \<open>(address >> 2) mod tableSize\<close> for a table of at most \<open>2^32\<close> entries. No bit moves,
  and nothing else in the predictor changes.
\<close>

theorem btbUpdate_clears_bit0:
  assumes "tid < length (globalHistory s)" and "globalHistory s ! tid \<noteq> []"
    and "computeIndex s branch_addr = Inr index" and "index < length (table s)"
    and "localHistory (table s ! index) \<noteq> []"
  shows "btbUpdate s tid branch_addr =
      Inr (s\<lparr>globalHistory := (globalHistory s)[tid := (globalHistory s ! tid)[0 := False]],
             table := (table s)[index :=
               (table s ! index)\<lparr>localHistory := (localHistory (table s ! index))[0 := False]\<rparr>]\<rparr>)
    \<and> (tableSize s \<le> 2 ^ 32 \<longrightarrow> index = unat (drop_bit 2 branch_addr) mod tableSize s)"
proof
  show "btbUpdate s tid branch_addr =
      Inr (s\<lparr>globalHistory := (globalHistory s)[tid := (globalHistory s ! tid)[0 := False]],
             table := (table s)[index :=
               (table s ! index)\<lparr>localHistory := (localHistory (table s ! index))[0 := False]\<rparr>]\<rparr>)"
    using assms by (simp add: btbUpdate_def ebind_def at_def put_def)
  show "tableSize s \<le> 2 ^ 32 \<longrightarrow> index = unat (drop_bit 2 branch_addr) mod tableSize s"
  proof
    assume le: "tableSize s \<le> 2 ^ 32"
    from assms(3) have t: "0 < tableSize s"
      and i: "index = unat (drop_bit 2 branch_addr) mod tableSize s mod 2 ^ 32"
      by (simp_all add: computeIndex_Inr_iff)
    have "unat (drop_bit 2 branch_addr) mod tableSize s < tableSize s"
      using t by simp
    with le have "unat (drop_bit 2 branch_addr) mod tableSize s < 2 ^ 32" by linarith
    with i show "index = unat (drop_bit 2 branch_addr) mod tableSize s" by simp
  qed
qed

theorem btbUpdate_clears_bit0_witness:
  "0 < length (globalHistory before_squash) \<and> globalHistory before_squash ! 0 \<noteq> []
   \<and> computeIndex before_squash 0 = Inr 0 \<and> 0 < length (table before_squash)
   \<and> localHistory (table before_squash ! 0) \<noteq> []
   \<and> tableSize before_squash \<le> 2 ^ 32
   \<and> globalHistory before_squash = [[True, True, False, False, False]]
   \<and> localHistory (table before_squash ! 0) = [True, False]
   \<and> btbUpdate before_squash 0 0 =
      Inr (before_squash\<lparr>globalHistory := [[False, True, False, False, False]],
             table := [(newNeuron header0 small_params)\<lparr>localHistory := [False, False]\<rparr>,
                       newNeuron header0 small_params]\<rparr>)"
proof -
  have p: "0 < length (globalHistory before_squash)" "globalHistory before_squash ! 0 \<noteq> []"
    "computeIndex before_squash 0 = Inr 0" "0 < length (table before_squash)"
    "localHistory (table before_squash ! 0) \<noteq> []"
    by (simp_all add: computeIndex_def before_squash_def)
  from btbUpdate_clears_bit0 [OF p] show ?thesis
    using p by (simp add: before_squash_def)
qed

section \<open>The position of a promoted segment\<close>

text \<open>
  C4 at a first training call of the neuron of \<open>small_params\<close>: the call reselects, the
  target segment 0 is not valid, the two active weights both read 1, so the first index
  0 is chosen. The segment becomes valid with weight 1 and \<open>theta\<close> grows by 2, but the
  stored position is the index 0 inside the window, not the history index
  \<open>activeStart + 0 = 1\<close>.
\<close>

theorem promoted_position_is_window_relative:
  "fit (newNeuron header0 small_params) all_taken True = Inr trained_once
   \<and> activeTerm (newNeuron header0 small_params)
        \<le> activeTime (newNeuron header0 small_params) + 1
   \<and> activeStart (newNeuron header0 small_params) = 1
   \<and> activeStart (newNeuron header0 small_params)
        div sparseGHSegLen (newNeuron header0 small_params) = 0
   \<and> \<not> valid (sparseSegs (newNeuron header0 small_params) ! 0)
   \<and> find_max [0..<2] [newCounter 6 1, newCounter 6 1] 0 \<bar>read (newCounter 6 1)\<bar> = Inr 0
   \<and> valid (sparseSegs trained_once ! 0)
   \<and> read (weight (sparseSegs trained_once ! 0)) = 1
   \<and> theta trained_once = theta (newNeuron header0 small_params) + 2
   \<and> ptr (sparseSegs trained_once ! 0) = 0
   \<and> ptr (sparseSegs trained_once ! 0) \<noteq> activeStart (newNeuron header0 small_params) + 0"
  using fit_small
  by (simp add: newNeuron_def small_params_def trained_once_def initTheta_def read_def
        newCounter_def ebind_def at_def list_eval)

section \<open>The number of the active window\<close>

text \<open>
  The code takes \<open>activeStart / sparseGHSegLen\<close> as the number of the active window.
  For the window \<open>k\<close>, which starts at \<open>denseGHLen + k * sparseGHSegLen\<close>, that is
  \<open>k\<close> plus \<open>denseGHLen / sparseGHSegLen\<close>: it is \<open>k\<close> when the dense history is shorter
  than a segment, and then the windows are visited in turn and wrap after the last one.
\<close>

lemma window_number:
  "0 < sparseGHSegLen n \<Longrightarrow> activeStart n = denseGHLen n + k * sparseGHSegLen n \<Longrightarrow>
   activeStart n div sparseGHSegLen n = denseGHLen n div sparseGHSegLen n + k"
  by simp

lemma next_activeStart_short_dense:
  assumes "denseGHLen n < sparseGHSegLen n"
    and "activeStart n = denseGHLen n + k * sparseGHSegLen n"
  shows "activeStart n div sparseGHSegLen n = k
    \<and> next_activeStart n
        = (if k = sparseGHNSegs n - 1 then denseGHLen n
           else denseGHLen n + (k + 1) * sparseGHSegLen n)"
proof -
  from assms have "activeStart n div sparseGHSegLen n = k" by simp
  then show ?thesis using assms(2) by (simp add: next_activeStart_def)
qed

section \<open>The window of the scenario\<close>

text \<open>
  C5 in the scenario of the specification: the second training call reselects with
  \<open>activeStart = 4\<close>, the only window. \<open>activeStart / sparseGHSegLen\<close> is 2, outside
  the one-element segment vector, so the call fails; the window that the code would move
  to starts at 6, the end of the history, instead of wrapping to 4.
\<close>

theorem scenario_window_leaves_history:
  "ebind (fit (newNeuron header0 scenario_params) scenario_history True)
     (\<lambda>n. fit n scenario_history True) = Inl OutOfRange
   \<and> ebind (fit (newNeuron header0 scenario_params) scenario_history True)
       (\<lambda>n. Inr (activeTerm n \<le> activeTime n + 1, activeStart n,
                 activeStart n div sparseGHSegLen n, length (sparseSegs n),
                 next_activeStart n))
       = Inr (True, 4, 2, 1, 6)
   \<and> \<not> 6 < p_denseGlobalHistoryLen scenario_params
            + p_sparseGHNSegs scenario_params * p_sparseGHSegLen scenario_params"
  by (simp add: neuron_eval header0_def scenario_params_def scenario_history_def list_eval)

text \<open>
  C6 in the same scenario, through the calls of the pipeline: predict and train the
  branch at address \<open>0x10\<close> twice. The second training call indexes the segment vector
  out of range.
\<close>

theorem scenario_run_out_of_range:
  "run header0 (newSNN header0 scenario_params)
     [Lookup 0 16, Update 0 16 True 0 False, Lookup 0 16, Update 0 16 True 1 False]
     = Inl OutOfRange"
  by (simp add: snn_eval neuron_eval header0_def scenario_params_def list_eval)

end
